theory Spec2Isabelle
  imports Main
begin

section \<open>Strings\<close>

text \<open>
  A Go string is a sequence of bytes; it is modelled as a \<open>string\<close> (a list of 8-bit
  characters). \<open>strings.ToUpper\<close> and \<open>strings.ToLower\<close> first scan the string: when every
  byte is below \<open>utf8.RuneSelf\<close> (128) they map the bytes \<open>a..z\<close> (\<open>A..Z\<close>) one by one,
  otherwise they map every rune through the Unicode case tables. The tables are not part
  of the repository, so they are a parameter (\<open>unicode\<close>).
\<close>

record unicode =
  uToUpper :: "string \<Rightarrow> string"
  uToLower :: "string \<Rightarrow> string"

definition isASCII :: "string \<Rightarrow> bool" where
  "isASCII s = list_all (\<lambda>c. (of_char c :: nat) < 128) s"

definition upperByte :: "char \<Rightarrow> char" where
  "upperByte c = (let n = (of_char c :: nat) in if 97 \<le> n \<and> n \<le> 122 then char_of (n - 32) else c)"

definition lowerByte :: "char \<Rightarrow> char" where
  "lowerByte c = (let n = (of_char c :: nat) in if 65 \<le> n \<and> n \<le> 90 then char_of (n + 32) else c)"

definition ToUpper :: "unicode \<Rightarrow> string \<Rightarrow> string" where
  "ToUpper U s = (if isASCII s then map upperByte s else uToUpper U s)"

definition ToLower :: "unicode \<Rightarrow> string \<Rightarrow> string" where
  "ToLower U s = (if isASCII s then map lowerByte s else uToLower U s)"

text \<open>
  \<open>strings.Replace(s, old, new, -1)\<close> for a one-byte \<open>old\<close> and a one-byte \<open>new\<close>, the
  only way the program calls it: every occurrence of the byte is replaced.
\<close>

definition Replace :: "string \<Rightarrow> char \<Rightarrow> char \<Rightarrow> string" where
  "Replace s old new = map (\<lambda>c. if c = old then new else c) s"

section \<open>The flag engine\<close>

text \<open>
  The program drives Go's standard \<open>flag\<close> package. The part of it that \<open>Parse\<close> calls is
  modelled here: a \<open>FlagSet\<close> with its \<open>formal\<close> and \<open>actual\<close> maps and its remaining
  arguments, \<open>Var\<close>, \<open>parseOne\<close> and the loop of \<open>FlagSet.Parse\<close>. The set is one created
  with \<open>ContinueOnError\<close>, the mode in which \<open>FlagSet.Parse\<close> hands its error back to the
  caller (with \<open>ExitOnError\<close> and \<open>PanicOnError\<close> the engine leaves at the same points).

  A \<open>flag.Value\<close> is an interface: \<open>Set\<close> takes the text of a value, may change the
  value's state and returns an error or nil; \<open>String\<close> prints the state; a value may
  also implement \<open>IsBoolFlag\<close>. The methods are the parameter \<open>ValueOps\<close>, over any type
  \<open>'v\<close> of value states, so that the theorems hold for every implementation of the
  interface. Every flag owns its value state: two flags do not share one variable.
\<close>

datatype error =
    ErrHelp
  | BadFlagSyntax string
  | NotDefined string
  | InvalidBooleanValue string string string
  | InvalidBooleanFlag string string
  | NeedsArgument string
  | InvalidValue string string string

record 'v ValueOps =
  vSet :: "'v \<Rightarrow> string \<Rightarrow> string option \<times> 'v"
  vString :: "'v \<Rightarrow> string"
  vIsBoolFlag :: "'v \<Rightarrow> bool option"

record 'v Flag =
  Name :: string
  Usage :: string
  Value :: 'v
  DefValue :: string

text \<open>
  In Go \<open>formal\<close> and \<open>actual\<close> both map a name to a pointer to the same \<open>Flag\<close>; the
  flag and the state of its value are kept in \<open>formal\<close>, and \<open>actual\<close> is the set of its
  keys.
\<close>

record 'v FlagSet =
  formal :: "string \<rightharpoonup> 'v Flag"
  actual :: "string set"
  args :: "string list"
  parsed :: bool

text \<open>
  \<open>FlagSet.Var\<close> registers a flag. It panics (here: \<open>None\<close>) on a name that begins with
  \<open>-\<close>, that contains \<open>=\<close>, or that is already registered.
\<close>

definition validName :: "string \<Rightarrow> bool" where
  "validName name = (\<not> (name \<noteq> [] \<and> hd name = CHR ''-'') \<and> CHR ''='' \<notin> set name)"

definition Var :: "'v ValueOps \<Rightarrow> 'v FlagSet \<Rightarrow> 'v \<Rightarrow> string \<Rightarrow> string \<Rightarrow> 'v FlagSet option" where
  "Var ops f v name usage =
     (if \<not> validName name then None
      else case formal f name of
        Some _ \<Rightarrow> None
      | None \<Rightarrow> Some (f\<lparr>formal := (formal f)(name \<mapsto>
                   \<lparr>Name = name, Usage = usage, Value = v, DefValue = vString ops v\<rparr>)\<rparr>))"

definition NewFlagSet :: "'v FlagSet" where
  "NewFlagSet = \<lparr>formal = Map.empty, actual = {}, args = [], parsed = False\<rparr>"

text \<open>The type assertion \<open>v.(interface{ IsBoolFlag() bool })\<close> followed by the call.\<close>

definition isBoolFlag :: "'v ValueOps \<Rightarrow> 'v \<Rightarrow> bool" where
  "isBoolFlag ops v = (case vIsBoolFlag ops v of None \<Rightarrow> False | Some b \<Rightarrow> b)"

text \<open>
  The loop of \<open>parseOne\<close> that looks for the first \<open>=\<close> from index 1 on; it returns the
  name, \<open>hasValue\<close> and the value.
\<close>

definition splitValue :: "string \<Rightarrow> string \<times> bool \<times> string" where
  "splitValue name =
     (let k = length (takeWhile (\<lambda>c. c \<noteq> CHR ''='') (tl name))
      in if k < length (tl name) then (take (Suc k) name, True, drop (Suc (Suc k)) name)
         else (name, False, []))"

text \<open>
  \<open>flag.Value.Set(value)\<close> on the flag registered under \<open>name\<close>: the new state of the
  value is stored whether or not \<open>Set\<close> returns an error.
\<close>

definition callSet :: "'v ValueOps \<Rightarrow> 'v FlagSet \<Rightarrow> string \<Rightarrow> 'v Flag \<Rightarrow> string \<Rightarrow> string option \<times> 'v FlagSet" where
  "callSet ops f name flag v =
     (case vSet ops (Value flag) v of
        (err, st) \<Rightarrow> (err, f\<lparr>formal := (formal f)(name \<mapsto> flag\<lparr>Value := st\<rparr>)\<rparr>))"

definition parseOne :: "'v ValueOps \<Rightarrow> 'v FlagSet \<Rightarrow> bool \<times> error option \<times> 'v FlagSet" where
  "parseOne ops f =
     (case args f of
        [] \<Rightarrow> (False, None, f)
      | s # rest \<Rightarrow>
          if length s < 2 \<or> s ! 0 \<noteq> CHR ''-'' then (False, None, f)
          else if s ! 1 = CHR ''-'' \<and> length s = 2 then (False, None, f\<lparr>args := rest\<rparr>)
          else
            let numMinuses = (if s ! 1 = CHR ''-'' then 2 else 1);
                name = drop numMinuses s
            in if length name = 0 \<or> name ! 0 = CHR ''-'' \<or> name ! 0 = CHR ''=''
               then (False, Some (BadFlagSyntax s), f)
               else
                 let f1 = f\<lparr>args := rest\<rparr>
                 in case splitValue name of (name, hasValue, v) \<Rightarrow>
                   (case formal f1 name of
                      None \<Rightarrow>
                        if name = ''help'' \<or> name = ''h'' then (False, Some ErrHelp, f1)
                        else (False, Some (NotDefined name), f1)
                    | Some flag \<Rightarrow>
                        if isBoolFlag ops (Value flag) then
                          (if hasValue then
                             (case callSet ops f1 name flag v of
                                (Some err, f2) \<Rightarrow> (False, Some (InvalidBooleanValue v name err), f2)
                              | (None, f2) \<Rightarrow> (True, None, f2\<lparr>actual := insert name (actual f2)\<rparr>))
                           else
                             (case callSet ops f1 name flag ''true'' of
                                (Some err, f2) \<Rightarrow> (False, Some (InvalidBooleanFlag name err), f2)
                              | (None, f2) \<Rightarrow> (True, None, f2\<lparr>actual := insert name (actual f2)\<rparr>)))
                        else
                          (case (if hasValue then Some (v, f1)
                                 else case args f1 of
                                        [] \<Rightarrow> None
                                      | a # as \<Rightarrow> Some (a, f1\<lparr>args := as\<rparr>)) of
                             None \<Rightarrow> (False, Some (NeedsArgument name), f1)
                           | Some (v, f2) \<Rightarrow>
                               (case callSet ops f2 name flag v of
                                  (Some err, f3) \<Rightarrow> (False, Some (InvalidValue v name err), f3)
                                | (None, f3) \<Rightarrow> (True, None, f3\<lparr>actual := insert name (actual f3)\<rparr>)))))"

lemma callSet_args: "callSet ops f name flag v = (e, f') \<Longrightarrow> args f' = args f"
  by (auto simp: callSet_def split: prod.splits)

lemma parseOne_seen_shorter:
  "parseOne ops f = (True, e, f') \<Longrightarrow> length (args f') < length (args f)"
  by (auto simp: parseOne_def Let_def split: list.splits if_splits prod.splits option.splits
      dest!: callSet_args)

text \<open>
  The loop of \<open>FlagSet.Parse\<close>: \<open>parseOne\<close> is called as long as it has seen a flag; the
  first error is returned (\<open>ContinueOnError\<close>).
\<close>

function parseLoop :: "'v ValueOps \<Rightarrow> 'v FlagSet \<Rightarrow> error option \<times> 'v FlagSet" where
  "parseLoop ops f =
     (case parseOne ops f of
        (True, _, f') \<Rightarrow> parseLoop ops f'
      | (False, None, f') \<Rightarrow> (None, f')
      | (False, Some err, f') \<Rightarrow> (Some err, f'))"
  by pat_completeness auto
termination
  by (relation "measure (\<lambda>(ops, f). length (args f))") (auto dest: parseOne_seen_shorter [OF sym])

definition FlagSet_Parse :: "'v ValueOps \<Rightarrow> 'v FlagSet \<Rightarrow> string list \<Rightarrow> error option \<times> 'v FlagSet" where
  "FlagSet_Parse ops f arguments = parseLoop ops (f\<lparr>parsed := True, args := arguments\<rparr>)"

section \<open>The standard values\<close>

text \<open>
  The values behind \<open>FlagSet.Int\<close>, \<open>FlagSet.Bool\<close> and \<open>FlagSet.String\<close>, with
  \<open>strconv.ParseBool\<close> and \<open>strconv.ParseInt(s, 0, strconv.IntSize)\<close> on a 64-bit platform.
  \<open>intValue.Set\<close> and \<open>boolValue.Set\<close> store what the conversion returned also when it
  returned an error: \<open>0\<close> or \<open>false\<close> for a syntax error, the nearest bound for a range
  error.
\<close>

datatype stdValue = IntValue int | BoolValue bool | StringValue string

datatype numError = ErrSyntax | ErrRange

definition ParseBool :: "string \<Rightarrow> numError option \<times> bool" where
  "ParseBool str =
     (if str \<in> set [''1'', ''t'', ''T'', ''TRUE'', ''true'', ''True''] then (None, True)
      else if str \<in> set [''0'', ''f'', ''F'', ''FALSE'', ''false'', ''False''] then (None, False)
      else (Some ErrSyntax, False))"

text \<open>
  The unsigned 64-bit numbers of \<open>ParseUint\<close> are integers here, and every test of the
  source against a bound is written out.
\<close>

definition maxUint64 :: int where
  "maxUint64 = 18446744073709551615"

text \<open>The value of a digit byte: \<open>0..9\<close>, then the letters in either case as \<open>10..35\<close>.\<close>

definition digitVal :: "char \<Rightarrow> int option" where
  "digitVal c =
     (let n = (of_char c :: int); l = (of_char (lowerByte c) :: int)
      in if 48 \<le> n \<and> n \<le> 57 then Some (n - 48)
         else if 97 \<le> l \<and> l \<le> 122 then Some (l - 97 + 10)
         else None)"

text \<open>
  The digit loop of \<open>ParseUint\<close> with \<open>base0\<close> true; it returns the error, the number
  and whether an underscore was seen. \<open>n * base + d\<close> is computed without wrap-around,
  so the test \<open>n1 < n || n1 > maxVal\<close> of the source is \<open>maxUint64 < n * base + d\<close>.
\<close>

fun digitLoop :: "int \<Rightarrow> string \<Rightarrow> int \<Rightarrow> bool \<Rightarrow> numError option \<times> int \<times> bool" where
  "digitLoop base [] n underscores = (None, n, underscores)"
| "digitLoop base (c # cs) n underscores =
     (if c = CHR ''_'' then digitLoop base cs n True
      else case digitVal c of
        None \<Rightarrow> (Some ErrSyntax, 0, underscores)
      | Some d \<Rightarrow>
          if base \<le> d then (Some ErrSyntax, 0, underscores)
          else if maxUint64 div base + 1 \<le> n then (Some ErrRange, maxUint64, underscores)
          else if maxUint64 < n * base + d then (Some ErrRange, maxUint64, underscores)
          else digitLoop base cs (n * base + d) underscores)"

datatype saw = SawStart | SawDigit | SawUnderscore | SawOther

fun underscoreLoop :: "bool \<Rightarrow> saw \<Rightarrow> string \<Rightarrow> bool" where
  "underscoreLoop hex sw [] = (sw \<noteq> SawUnderscore)"
| "underscoreLoop hex sw (c # cs) =
     (let n = (of_char c :: nat); l = (of_char (lowerByte c) :: nat)
      in if (48 \<le> n \<and> n \<le> 57) \<or> (hex \<and> 97 \<le> l \<and> l \<le> 102) then underscoreLoop hex SawDigit cs
         else if c = CHR ''_'' then (if sw \<noteq> SawDigit then False else underscoreLoop hex SawUnderscore cs)
         else if sw = SawUnderscore then False
         else underscoreLoop hex SawOther cs)"

definition underscoreOK :: "string \<Rightarrow> bool" where
  "underscoreOK s0 =
     (let s = (if 1 \<le> length s0 \<and> (s0 ! 0 = CHR ''-'' \<or> s0 ! 0 = CHR ''+'') then drop 1 s0 else s0)
      in if 2 \<le> length s \<and> s ! 0 = CHR ''0'' \<and> lowerByte (s ! 1) \<in> set ''box''
         then underscoreLoop (lowerByte (s ! 1) = CHR ''x'') SawDigit (drop 2 s)
         else underscoreLoop False SawStart s)"

definition ParseUint :: "string \<Rightarrow> numError option \<times> int" where
  "ParseUint s0 =
     (if s0 = [] then (Some ErrSyntax, 0)
      else
        let (base, s) =
              (if s0 ! 0 = CHR ''0'' then
                 (if 3 \<le> length s0 \<and> lowerByte (s0 ! 1) = CHR ''b'' then (2, drop 2 s0)
                  else if 3 \<le> length s0 \<and> lowerByte (s0 ! 1) = CHR ''o'' then (8, drop 2 s0)
                  else if 3 \<le> length s0 \<and> lowerByte (s0 ! 1) = CHR ''x'' then (16, drop 2 s0)
                  else (8, drop 1 s0))
               else (10, s0))
        in case digitLoop base s 0 False of
             (Some err, n, _) \<Rightarrow> (Some err, n)
           | (None, n, underscores) \<Rightarrow>
               if underscores \<and> \<not> underscoreOK s0 then (Some ErrSyntax, 0) else (None, n))"

definition ParseInt :: "string \<Rightarrow> numError option \<times> int" where
  "ParseInt s0 =
     (if s0 = [] then (Some ErrSyntax, 0)
      else
        let neg = (s0 ! 0 = CHR ''-'');
            s = (if s0 ! 0 = CHR ''+'' \<or> s0 ! 0 = CHR ''-'' then drop 1 s0 else s0)
        in case ParseUint s of
             (Some ErrSyntax, _) \<Rightarrow> (Some ErrSyntax, 0)
           | (_, un) \<Rightarrow>
               if \<not> neg \<and> 9223372036854775808 \<le> un then (Some ErrRange, 9223372036854775807)
               else if neg \<and> 9223372036854775808 < un then (Some ErrRange, - 9223372036854775808)
               else (None, if neg then - un else un))"

fun FormatUint :: "nat \<Rightarrow> string" where
  "FormatUint n =
     (if n < 10 then [char_of (48 + n)] else FormatUint (n div 10) @ [char_of (48 + n mod 10)])"

definition Itoa :: "int \<Rightarrow> string" where
  "Itoa i = (if i < 0 then CHR ''-'' # FormatUint (nat (- i)) else FormatUint (nat i))"

fun stdSet :: "stdValue \<Rightarrow> string \<Rightarrow> string option \<times> stdValue" where
  "stdSet (IntValue i) s =
     (case ParseInt s of
        (None, v) \<Rightarrow> (None, IntValue v)
      | (Some ErrSyntax, v) \<Rightarrow> (Some ''parse error'', IntValue v)
      | (Some ErrRange, v) \<Rightarrow> (Some ''value out of range'', IntValue v))"
| "stdSet (BoolValue b) s =
     (case ParseBool s of
        (None, v) \<Rightarrow> (None, BoolValue v)
      | (Some _, v) \<Rightarrow> (Some ''parse error'', BoolValue v))"
| "stdSet (StringValue _) s = (None, StringValue s)"

fun stdString :: "stdValue \<Rightarrow> string" where
  "stdString (IntValue i) = Itoa i"
| "stdString (BoolValue b) = (if b then ''true'' else ''false'')"
| "stdString (StringValue s) = s"

fun stdIsBoolFlag :: "stdValue \<Rightarrow> bool option" where
  "stdIsBoolFlag (BoolValue _) = Some True"
| "stdIsBoolFlag _ = None"

definition stdOps :: "stdValue ValueOps" where
  "stdOps = \<lparr>vSet = stdSet, vString = stdString, vIsBoolFlag = stdIsBoolFlag\<rparr>"

section \<open>envflag\<close>

text \<open>
  The \<open>option\<close> struct and the three \<open>Option\<close> constructors. The variable \<open>o\<close> of the source is \<open>cfg\<close>; the fields are named
  \<open>o_set\<close>, \<open>o_args\<close> and \<open>o_prefix\<close>.
\<close>

record 'v option_cfg =
  o_set :: "'v FlagSet"
  o_args :: "string list"
  o_prefix :: string

type_synonym 'v Option = "'v option_cfg \<Rightarrow> 'v option_cfg"

definition FlagSet :: "'v FlagSet \<Rightarrow> 'v Option" where
  "FlagSet s = (\<lambda>cfg. cfg\<lparr>o_set := s\<rparr>)"

definition Args :: "string list \<Rightarrow> 'v Option" where
  "Args arguments = (\<lambda>cfg. cfg\<lparr>o_args := arguments\<rparr>)"

definition Prefix :: "string \<Rightarrow> 'v Option" where
  "Prefix p = (\<lambda>cfg. cfg\<lparr>o_prefix := p\<rparr>)"

text \<open>
  \<open>env\<close>: the process environment is a map from keys to values; \<open>os.LookupEnv\<close> returns
  the value and whether the key is present, here an \<open>option\<close>.
\<close>

definition env :: "unicode \<Rightarrow> (string \<rightharpoonup> string) \<Rightarrow> string \<Rightarrow> string option" where
  "env U environ name =
     (let key = ToUpper U name;
          key = Replace key (CHR ''.'') (CHR ''_'');
          key = Replace key (CHR ''-'') (CHR ''_'')
      in environ key)"

text \<open>The \<open>switch strings.ToLower(v)\<close> of \<open>Parse\<close>, applied to the value of a boolean flag.\<close>

definition boolSwitch :: "unicode \<Rightarrow> string \<Rightarrow> string" where
  "boolSwitch U v =
     (let l = ToLower U v
      in if l \<in> set [''true'', ''yes'', ''y'', ''1''] then ''true''
         else if l \<in> set [''false'', ''no'', ''n'', ''0''] then ''false''
         else v)"

text \<open>
  The map \<open>unset\<close>: \<open>VisitAll\<close> enters every registered flag under its name, \<open>Visit\<close>
  deletes the flags that have been set. \<open>Var\<close> stores every flag under its own \<open>Name\<close>, so
  the keys of \<open>formal\<close> are the names.
\<close>

definition unsetFlags :: "'v FlagSet \<Rightarrow> (string \<rightharpoonup> 'v Flag)" where
  "unsetFlags s = (\<lambda>name. if name \<in> actual s then None else formal s name)"

text \<open>
  Go ranges over a map in an order it does not specify. The order of one run is the
  list \<open>order\<close>: every key of the map once.
\<close>

definition rangeOrder :: "string list \<Rightarrow> (string \<rightharpoonup> 'a) \<Rightarrow> bool" where
  "rangeOrder order m = (distinct order \<and> set order = dom m)"

text \<open>The loop \<open>for name, f := range unset\<close>, which builds the argument list.\<close>

fun envArgs :: "unicode \<Rightarrow> 'v ValueOps \<Rightarrow> (string \<rightharpoonup> string) \<Rightarrow> string \<Rightarrow> (string \<rightharpoonup> 'v Flag) \<Rightarrow> string list \<Rightarrow> string list" where
  "envArgs U ops environ p unset [] = []"
| "envArgs U ops environ p unset (name # order) =
     (case unset name of
        None \<Rightarrow> envArgs U ops environ p unset order
      | Some f \<Rightarrow>
          (case env U environ (p @ name) of
             Some v \<Rightarrow>
               (''--'' @ name @ ''='' @ (if isBoolFlag ops (Value f) then boolSwitch U v else v))
                 # envArgs U ops environ p unset order
           | None \<Rightarrow> envArgs U ops environ p unset order))"

text \<open>\<open>Parse\<close>, from the first call of \<open>o.set.Parse\<close> on.\<close>

definition parseWith :: "unicode \<Rightarrow> 'v ValueOps \<Rightarrow> (string \<rightharpoonup> string) \<Rightarrow> string list \<Rightarrow> 'v option_cfg \<Rightarrow> error option \<times> 'v FlagSet" where
  "parseWith U ops environ order cfg =
     (case FlagSet_Parse ops (o_set cfg) (o_args cfg) of
        (Some err, s1) \<Rightarrow> (Some err, s1)
      | (None, s1) \<Rightarrow>
          let as = envArgs U ops environ (o_prefix cfg) (unsetFlags s1) order
          in if length as = 0 then (None, s1)
             else
               let s = args s1;
                   as = (if 0 < length s then (as @ [''--'']) @ s else as)
               in FlagSet_Parse ops s1 as)"

text \<open>
  \<open>Parse(options...)\<close>: the defaults are \<open>flag.CommandLine\<close> and \<open>os.Args[1:]\<close>, then
  every option is applied in turn.
\<close>

definition Parse :: "unicode \<Rightarrow> 'v ValueOps \<Rightarrow> (string \<rightharpoonup> string) \<Rightarrow> string list \<Rightarrow> 'v FlagSet \<Rightarrow> string list \<Rightarrow> 'v Option list \<Rightarrow> error option \<times> 'v FlagSet" where
  "Parse U ops environ order CommandLine osArgs options =
     parseWith U ops environ order
       (fold (\<lambda>opt cfg. opt cfg) options \<lparr>o_set = CommandLine, o_args = drop 1 osArgs, o_prefix = []\<rparr>)"

section \<open>What the specification names\<close>

text \<open>
  The first pass of \<open>Parse\<close> is the call \<open>o.set.Parse(o.args)\<close>.
\<close>

definition firstPass :: "'v ValueOps \<Rightarrow> 'v option_cfg \<Rightarrow> error option \<times> 'v FlagSet" where
  "firstPass ops cfg = FlagSet_Parse ops (o_set cfg) (o_args cfg)"

text \<open>A flag set whose names have all been accepted by \<open>Var\<close>.\<close>

definition wellFormed :: "'v FlagSet \<Rightarrow> bool" where
  "wellFormed f = (\<forall>name \<in> dom (formal f). validName name)"

text \<open>
  The environment key in the words of the specification: the prefix and the flag name,
  upper-cased, with every \<open>.\<close> and every \<open>-\<close> replaced by \<open>_\<close>.
\<close>

definition envKey :: "unicode \<Rightarrow> string \<Rightarrow> string \<Rightarrow> string" where
  "envKey U p name =
     map (\<lambda>c. if c = CHR ''.'' \<or> c = CHR ''-'' then CHR ''_'' else c) (ToUpper U (p @ name))"

text \<open>
  The normalization in the words of the specification: for a boolean-style flag, a value
  that is \<open>true\<close>, \<open>yes\<close>, \<open>y\<close> or \<open>1\<close> once lower-cased becomes \<open>true\<close>, one that is
  \<open>false\<close>, \<open>no\<close>, \<open>n\<close> or \<open>0\<close> becomes \<open>false\<close>, any other value stays; the value of any
  other flag stays.
\<close>

definition normalized :: "unicode \<Rightarrow> bool \<Rightarrow> string \<Rightarrow> string" where
  "normalized U boolStyle v =
     (if boolStyle \<and> ToLower U v \<in> {''true'', ''yes'', ''y'', ''1''} then ''true''
      else if boolStyle \<and> ToLower U v \<in> {''false'', ''no'', ''n'', ''0''} then ''false''
      else v)"

text \<open>
  The text that the environment supplies for a flag: the value under the flag's key,
  normalized, or nothing when the key is absent.
\<close>

definition envText :: "unicode \<Rightarrow> 'v ValueOps \<Rightarrow> (string \<rightharpoonup> string) \<Rightarrow> string \<Rightarrow> string \<Rightarrow> 'v Flag \<Rightarrow> string option" where
  "envText U ops environ p name fl =
     map_option (normalized U (isBoolFlag ops (Value fl))) (environ (envKey U p name))"

text \<open>The result of \<open>Set\<close> on a flag: the error, and the flag with the new state.\<close>

definition setError :: "'v ValueOps \<Rightarrow> 'v Flag \<Rightarrow> string \<Rightarrow> string option" where
  "setError ops fl t = fst (vSet ops (Value fl) t)"

definition setFlag :: "'v ValueOps \<Rightarrow> 'v Flag \<Rightarrow> string \<Rightarrow> 'v Flag" where
  "setFlag ops fl t = fl\<lparr>Value := snd (vSet ops (Value fl) t)\<rparr>"

text \<open>
  For a name of the map \<open>unset\<close>: the flag and the text that the environment supplies
  for it, if any.
\<close>

definition envFlag :: "unicode \<Rightarrow> 'v ValueOps \<Rightarrow> (string \<rightharpoonup> string) \<Rightarrow> string \<Rightarrow> (string \<rightharpoonup> 'v Flag) \<Rightarrow> string \<Rightarrow> ('v Flag \<times> string) option" where
  "envFlag U ops environ p unset name =
     (case unset name of
        None \<Rightarrow> None
      | Some fl \<Rightarrow> map_option (\<lambda>t. (fl, t)) (envText U ops environ p name fl))"



section \<open>Flag sets of the tests\<close>

text \<open>
  The tests register standard flags in a fresh flag set and run with strings that are
  all ASCII, so no Unicode table is consulted: \<open>noTables\<close> stands for the tables.
\<close>

definition noTables :: unicode where
  "noTables = \<lparr>uToUpper = (\<lambda>s. s), uToLower = (\<lambda>s. s)\<rparr>"

definition stdFlag :: "string \<Rightarrow> stdValue \<Rightarrow> stdValue Flag" where
  "stdFlag name v = \<lparr>Name = name, Usage = [], Value = v, DefValue = stdString v\<rparr>"

definition oneFlag :: "string \<Rightarrow> stdValue \<Rightarrow> stdValue FlagSet" where
  "oneFlag name v = \<lparr>formal = [name \<mapsto> stdFlag name v], actual = {}, args = [], parsed = False\<rparr>"

definition twoFlags :: "string \<Rightarrow> stdValue \<Rightarrow> string \<Rightarrow> stdValue \<Rightarrow> stdValue FlagSet" where
  "twoFlags n1 v1 n2 v2 =
     \<lparr>formal = [n1 \<mapsto> stdFlag n1 v1, n2 \<mapsto> stdFlag n2 v2], actual = {}, args = [], parsed = False\<rparr>"

section \<open>The engine: one step and the loop\<close>


declare parseLoop.simps [simp del]

lemma parseLoop_seen: "parseOne ops f = (True, e, f1) \<Longrightarrow> parseLoop ops f = parseLoop ops f1"
  by (subst parseLoop.simps) simp

lemma parseLoop_stop: "parseOne ops f = (False, e, f1) \<Longrightarrow> parseLoop ops f = (e, f1)"
  by (subst parseLoop.simps) (simp split: option.splits)

lemma callSet_eq:
  "callSet ops f name flag v =
     (fst (vSet ops (Value flag) v),
      f\<lparr>formal := (formal f)(name \<mapsto> flag\<lparr>Value := snd (vSet ops (Value flag) v)\<rparr>)\<rparr>)"
  by (simp add: callSet_def split: prod.splits)

lemma parseOne_dom: "parseOne ops f = (seen, e, f') \<Longrightarrow> dom (formal f') = dom (formal f)"
  by (auto simp: parseOne_def Let_def callSet_eq split: list.splits if_splits prod.splits option.splits)

lemma parseOne_actual: "parseOne ops f = (seen, e, f') \<Longrightarrow> actual f \<subseteq> actual f'"
  by (auto simp: parseOne_def Let_def callSet_eq split: list.splits if_splits prod.splits option.splits)




lemma parseLoop_frame:
  "parseLoop ops f = (e, f') \<Longrightarrow> dom (formal f') = dom (formal f) \<and> actual f \<subseteq> actual f'"
proof (induction "length (args f)" arbitrary: f rule: less_induct)
  case less
  obtain seen e1 f1 where p1: "parseOne ops f = (seen, e1, f1)"
    by (cases "parseOne ops f") auto
  show ?case
  proof (cases seen)
    case True
    with p1 have "length (args f1) < length (args f)" "parseLoop ops f1 = (e, f')"
      using parseOne_seen_shorter parseLoop_seen less.prems by fastforce+
    then have "dom (formal f') = dom (formal f1) \<and> actual f1 \<subseteq> actual f'"
      using less.hyps by blast
    with parseOne_dom [OF p1] parseOne_actual [OF p1] show ?thesis by auto
  next
    case False
    with p1 less.prems have "f' = f1" using parseLoop_stop by fastforce
    with parseOne_dom [OF p1] parseOne_actual [OF p1] show ?thesis by auto
  qed
qed


lemma splitValue_arg:
  assumes "name \<noteq> []" "CHR ''='' \<notin> set name"
  shows "splitValue (name @ ''='' @ v) = (name, True, v)"
proof -
  obtain c cs where n: "name = c # cs" using assms(1) by (cases name) auto
  have "CHR ''='' \<notin> set cs" using assms(2) n by simp
  then have "takeWhile (\<lambda>c. c \<noteq> CHR ''='') (cs @ CHR ''='' # v) = cs"
    by (induction cs) auto
  then show ?thesis
    by (simp add: splitValue_def n)
qed

lemma parseOne_envArg:
  assumes a: "args f = (''--'' @ name @ ''='' @ v) # rest"
      and vn: "validName name"
      and fl: "formal f name = Some flag"
  shows "parseOne ops f =
     (if name = [] then (False, Some (BadFlagSyntax (''--'' @ name @ ''='' @ v)), f)
      else case vSet ops (Value flag) v of
        (None, st) \<Rightarrow>
          (True, None, f\<lparr>args := rest, formal := (formal f)(name \<mapsto> flag\<lparr>Value := st\<rparr>),
                         actual := insert name (actual f)\<rparr>)
      | (Some err, st) \<Rightarrow>
          (False, Some (if isBoolFlag ops (Value flag) then InvalidBooleanValue v name err
                        else InvalidValue v name err),
           f\<lparr>args := rest, formal := (formal f)(name \<mapsto> flag\<lparr>Value := st\<rparr>)\<rparr>))"
proof (cases "name = []")
  case True
  then show ?thesis by (simp add: parseOne_def a)
next
  case False
  then obtain c cs where n: "name = c # cs" by (cases name) auto
  have c: "c \<noteq> CHR ''-''" "c \<noteq> CHR ''=''" "CHR ''='' \<notin> set name"
    using vn n by (auto simp: validName_def)
  have sp: "splitValue (c # cs @ CHR ''='' # v) = (name, True, v)"
    using splitValue_arg [OF False c(3), of v] n by simp
  show ?thesis
    using c fl by (simp add: parseOne_def a n sp callSet_eq Let_def split: prod.splits option.splits)
qed

section \<open>The second pass\<close>


lemma env_envKey: "env U environ (p @ name) = environ (envKey U p name)"
  by (auto simp: env_def envKey_def Replace_def Let_def intro!: arg_cong [where f = environ])

lemma boolSwitch_normalized:
  "(if isBoolFlag ops (Value fl) then boolSwitch U v else v) = normalized U (isBoolFlag ops (Value fl)) v"
  by (simp add: boolSwitch_def normalized_def Let_def)

lemma envArgs_Cons:
  "envArgs U ops environ p unset (name # order) =
     (case unset name of
        None \<Rightarrow> envArgs U ops environ p unset order
      | Some fl \<Rightarrow>
          (case envText U ops environ p name fl of
             None \<Rightarrow> envArgs U ops environ p unset order
           | Some t \<Rightarrow> (''--'' @ name @ ''='' @ t) # envArgs U ops environ p unset order))"
  by (simp add: envText_def env_envKey boolSwitch_normalized split: option.splits)

declare envArgs.simps(2) [simp del]

lemma parseLoop_positional:
  "args f = (if s = [] then [] else ''--'' # s) \<Longrightarrow> parseLoop ops f = (None, f\<lparr>args := s\<rparr>)"
  by (rule trans [OF parseLoop_stop [where e = None and ?f1.0 = "f\<lparr>args := s\<rparr>"]])
     (auto simp: parseOne_def)


lemma envArgs_Cons_envFlag:
  "envArgs U ops environ p unset (name # order) =
     (case envFlag U ops environ p unset name of
        None \<Rightarrow> envArgs U ops environ p unset order
      | Some (fl, t) \<Rightarrow> (''--'' @ name @ ''='' @ t) # envArgs U ops environ p unset order)"
  by (simp add: envArgs_Cons envFlag_def split: option.splits)

lemma parseLoop_envArg:
  assumes a: "args f = (''--'' @ name @ ''='' @ t) # rest"
      and vn: "validName name"
      and fl: "formal f name = Some fl"
  shows "name = [] \<Longrightarrow> \<exists>err. parseLoop ops f = (Some err, f)"
    and "name \<noteq> [] \<Longrightarrow> setError ops fl t \<noteq> None \<Longrightarrow>
           \<exists>err. parseLoop ops f =
             (Some err, f\<lparr>args := rest, formal := (formal f)(name \<mapsto> setFlag ops fl t)\<rparr>)"
    and "name \<noteq> [] \<Longrightarrow> setError ops fl t = None \<Longrightarrow>
           parseLoop ops f =
             parseLoop ops (f\<lparr>args := rest, formal := (formal f)(name \<mapsto> setFlag ops fl t),
                               actual := insert name (actual f)\<rparr>)"
proof -
  note p1 = parseOne_envArg [OF a vn fl, of ops]
  show "name = [] \<Longrightarrow> \<exists>err. parseLoop ops f = (Some err, f)"
    using p1 by (auto dest!: parseLoop_stop)
  show "name \<noteq> [] \<Longrightarrow> setError ops fl t \<noteq> None \<Longrightarrow>
           \<exists>err. parseLoop ops f =
             (Some err, f\<lparr>args := rest, formal := (formal f)(name \<mapsto> setFlag ops fl t)\<rparr>)"
    using p1 by (cases "vSet ops (Value fl) t") (auto simp: setError_def setFlag_def dest!: parseLoop_stop)
  show "name \<noteq> [] \<Longrightarrow> setError ops fl t = None \<Longrightarrow>
           parseLoop ops f =
             parseLoop ops (f\<lparr>args := rest, formal := (formal f)(name \<mapsto> setFlag ops fl t),
                               actual := insert name (actual f)\<rparr>)"
    using p1 by (cases "vSet ops (Value fl) t") (auto simp: setError_def setFlag_def dest!: parseLoop_seen)
qed

lemma secondPass:
  assumes "distinct order"
      and "wellFormed f"
      and "\<forall>n\<in>set order. \<forall>fl. unset n = Some fl \<longrightarrow> formal f n = Some fl"
      and "args f = envArgs U ops environ p unset order @ (if s = [] then [] else ''--'' # s)"
      and "parseLoop ops f = (e, f')"
  shows "(\<forall>n. n \<notin> set order \<or> envFlag U ops environ p unset n = None \<longrightarrow> formal f' n = formal f n)
       \<and> (\<forall>n\<in>set order. \<forall>fl t. envFlag U ops environ p unset n = Some (fl, t) \<longrightarrow>
             formal f' n = Some fl \<or> formal f' n = Some (setFlag ops fl t))
       \<and> (e = None \<longrightarrow> args f' = s \<and>
             (\<forall>n\<in>set order. \<forall>fl t. envFlag U ops environ p unset n = Some (fl, t) \<longrightarrow>
                setError ops fl t = None \<and> formal f' n = Some (setFlag ops fl t) \<and> n \<in> actual f'))"
  using assms
proof (induction order arbitrary: f)
  case Nil
  then have "parseLoop ops f = (None, f\<lparr>args := s\<rparr>)"
    using parseLoop_positional [of f s ops] by simp
  with Nil show ?case by auto
next
  case (Cons name order)
  show ?case
  proof (cases "envFlag U ops environ p unset name")
    case None
    then have "args f = envArgs U ops environ p unset order @ (if s = [] then [] else ''--'' # s)"
      using Cons.prems(4) by (simp add: envArgs_Cons_envFlag)
    then have ih: "(\<forall>n. n \<notin> set order \<or> envFlag U ops environ p unset n = None \<longrightarrow> formal f' n = formal f n)
       \<and> (\<forall>n\<in>set order. \<forall>fl t. envFlag U ops environ p unset n = Some (fl, t) \<longrightarrow>
             formal f' n = Some fl \<or> formal f' n = Some (setFlag ops fl t))
       \<and> (e = None \<longrightarrow> args f' = s \<and>
             (\<forall>n\<in>set order. \<forall>fl t. envFlag U ops environ p unset n = Some (fl, t) \<longrightarrow>
                setError ops fl t = None \<and> formal f' n = Some (setFlag ops fl t) \<and> n \<in> actual f'))"
      using Cons.IH [of f] Cons.prems by simp
    with None show ?thesis by auto
  next
    case (Some ft)
    then obtain fl t where ft: "envFlag U ops environ p unset name = Some (fl, t)"
      by (cases ft) auto
    then have un: "unset name = Some fl"
      by (auto simp: envFlag_def split: option.splits)
    then have fl: "formal f name = Some fl"
      using Cons.prems(3) by simp
    then have vn: "validName name"
      using Cons.prems(2) by (auto simp: wellFormed_def)
    let ?rest = "envArgs U ops environ p unset order @ (if s = [] then [] else ''--'' # s)"
    have a: "args f = (''--'' @ name @ ''='' @ t) # ?rest"
      using Cons.prems(4) ft by (simp add: envArgs_Cons_envFlag)
    have nn: "name \<notin> set order" using Cons.prems(1) by simp
    consider (bad) "name = []" | (rej) "name \<noteq> []" "setError ops fl t \<noteq> None"
      | (ok) "name \<noteq> []" "setError ops fl t = None" by blast
    then show ?thesis
    proof cases
      case bad
      then obtain err where "parseLoop ops f = (Some err, f)"
        using parseLoop_envArg(1) [OF a vn fl] by blast
      with Cons.prems(5) have "e = Some err" "f' = f" by auto
      with Cons.prems(3) show ?thesis
        by (auto simp: envFlag_def split: option.splits)
    next
      case rej
      then obtain err where "parseLoop ops f =
          (Some err, f\<lparr>args := ?rest, formal := (formal f)(name \<mapsto> setFlag ops fl t)\<rparr>)"
        using parseLoop_envArg(2) [OF a vn fl] by blast
      with Cons.prems(5) have "e = Some err"
        "f' = f\<lparr>args := ?rest, formal := (formal f)(name \<mapsto> setFlag ops fl t)\<rparr>" by auto
      with Cons.prems(3) ft show ?thesis
        by (auto simp: envFlag_def split: option.splits)
    next
      case ok
      let ?f1 = "f\<lparr>args := ?rest, formal := (formal f)(name \<mapsto> setFlag ops fl t),
                     actual := insert name (actual f)\<rparr>"
      have lp: "parseLoop ops ?f1 = (e, f')"
        using parseLoop_envArg(3) [OF a vn fl ok] Cons.prems(5) by simp
      have wf1: "wellFormed ?f1"
        using Cons.prems(2) fl by (auto simp: wellFormed_def)
      have ag1: "\<forall>n\<in>set order. \<forall>fl. unset n = Some fl \<longrightarrow> formal ?f1 n = Some fl"
        using Cons.prems(3) nn by auto
      have ih: "(\<forall>n. n \<notin> set order \<or> envFlag U ops environ p unset n = None \<longrightarrow> formal f' n = formal ?f1 n)
       \<and> (\<forall>n\<in>set order. \<forall>fl t. envFlag U ops environ p unset n = Some (fl, t) \<longrightarrow>
             formal f' n = Some fl \<or> formal f' n = Some (setFlag ops fl t))
       \<and> (e = None \<longrightarrow> args f' = s \<and>
             (\<forall>n\<in>set order. \<forall>fl t. envFlag U ops environ p unset n = Some (fl, t) \<longrightarrow>
                setError ops fl t = None \<and> formal f' n = Some (setFlag ops fl t) \<and> n \<in> actual f'))"
        using Cons.IH [of ?f1] Cons.prems(1) wf1 ag1 lp by simp
      have nm: "formal f' name = Some (setFlag ops fl t)"
        using ih nn by simp
      have act: "name \<in> actual f'"
        using parseLoop_frame [OF lp] by auto
      show ?thesis
        using ih nm act ft ok nn by auto
    qed
  qed
qed

section \<open>The two passes of Parse\<close>


lemma firstPass_frame:
  "dom (formal (snd (firstPass ops cfg))) = dom (formal (o_set cfg))"
  using parseLoop_frame [of ops "(o_set cfg)\<lparr>parsed := True, args := o_args cfg\<rparr>"
      "fst (firstPass ops cfg)" "snd (firstPass ops cfg)"]
  by (simp add: firstPass_def FlagSet_Parse_def)


lemma firstPass_wellFormed:
  "wellFormed (o_set cfg) \<Longrightarrow> wellFormed (snd (firstPass ops cfg))"
  by (simp add: wellFormed_def firstPass_frame)

lemma envFlag_unsetFlags:
  "envFlag U ops environ p (unsetFlags s1) n = Some (fl, t) \<longleftrightarrow>
     n \<notin> actual s1 \<and> formal s1 n = Some fl \<and>
     (\<exists>v. environ (envKey U p n) = Some v \<and> t = normalized U (isBoolFlag ops (Value fl)) v)"
  by (auto simp: envFlag_def unsetFlags_def envText_def split: option.splits)


lemma envArgs_set:
  "set (envArgs U ops environ p unset order) =
     {''--'' @ n @ ''='' @ t | n fl t. n \<in> set order \<and> envFlag U ops environ p unset n = Some (fl, t)}"
  by (induction order) (auto simp: envArgs_Cons_envFlag split: option.splits)

lemma parseWith_first_error:
  "fst (firstPass ops cfg) = Some e \<Longrightarrow> parseWith U ops environ order cfg = firstPass ops cfg"
  by (cases "firstPass ops cfg") (auto simp: parseWith_def firstPass_def)

lemma parseWith_second:
  assumes "fst (firstPass ops cfg) = None"
  shows "parseWith U ops environ order cfg =
     (if envArgs U ops environ (o_prefix cfg) (unsetFlags (snd (firstPass ops cfg))) order = []
      then (None, snd (firstPass ops cfg))
      else FlagSet_Parse ops (snd (firstPass ops cfg))
             (envArgs U ops environ (o_prefix cfg) (unsetFlags (snd (firstPass ops cfg))) order @
              (if args (snd (firstPass ops cfg)) = [] then [] else ''--'' # args (snd (firstPass ops cfg)))))"
  using assms by (cases "firstPass ops cfg") (auto simp: parseWith_def firstPass_def Let_def)

lemma parseWith_post:
  assumes wf: "wellFormed (o_set cfg)"
      and ok: "fst (firstPass ops cfg) = None"
      and ord: "rangeOrder order (unsetFlags (snd (firstPass ops cfg)))"
  shows "(envFlag U ops environ (o_prefix cfg) (unsetFlags (snd (firstPass ops cfg))) n = None \<longrightarrow>
            formal (snd (parseWith U ops environ order cfg)) n = formal (snd (firstPass ops cfg)) n)
       \<and> (\<forall>fl t. envFlag U ops environ (o_prefix cfg) (unsetFlags (snd (firstPass ops cfg))) n = Some (fl, t) \<longrightarrow>
            formal (snd (parseWith U ops environ order cfg)) n = Some fl \<or>
            formal (snd (parseWith U ops environ order cfg)) n = Some (setFlag ops fl t))
       \<and> (fst (parseWith U ops environ order cfg) = None \<longrightarrow>
            args (snd (parseWith U ops environ order cfg)) = args (snd (firstPass ops cfg)) \<and>
            (\<forall>fl t. envFlag U ops environ (o_prefix cfg) (unsetFlags (snd (firstPass ops cfg))) n = Some (fl, t) \<longrightarrow>
               setError ops fl t = None \<and>
               formal (snd (parseWith U ops environ order cfg)) n = Some (setFlag ops fl t) \<and>
               n \<in> actual (snd (parseWith U ops environ order cfg))))"
proof -
  let ?s1 = "snd (firstPass ops cfg)"
  let ?unset = "unsetFlags ?s1"
  let ?as = "envArgs U ops environ (o_prefix cfg) ?unset order"
  let ?r = "parseWith U ops environ order cfg"
  have inord: "\<And>fl t. envFlag U ops environ (o_prefix cfg) ?unset n = Some (fl, t) \<Longrightarrow> n \<in> set order"
    using ord by (auto simp: rangeOrder_def envFlag_def split: option.splits)
  show ?thesis
  proof (cases "?as = []")
    case True
    then have r: "?r = (None, ?s1)" using parseWith_second [OF ok] by simp
    have "envFlag U ops environ (o_prefix cfg) ?unset n = None"
    proof (cases "envFlag U ops environ (o_prefix cfg) ?unset n")
      case (Some ft)
      then have "''--'' @ n @ ''='' @ snd ft \<in> set ?as"
        using inord [of "fst ft" "snd ft"] unfolding envArgs_set
        by (cases ft) (simp, blast)
      with True show ?thesis by simp
    qed simp
    with r show ?thesis by simp
  next
    case False
    let ?f = "?s1\<lparr>parsed := True, args := ?as @ (if args ?s1 = [] then [] else ''--'' # args ?s1)\<rparr>"
    have r: "parseLoop ops ?f = (fst ?r, snd ?r)"
      using parseWith_second [OF ok, of U environ order] False by (simp add: FlagSet_Parse_def)
    have "distinct order" using ord by (simp add: rangeOrder_def)
    moreover have "wellFormed ?f"
      using firstPass_wellFormed [OF wf, of ops] by (simp add: wellFormed_def)
    moreover have "\<forall>n\<in>set order. \<forall>fl. ?unset n = Some fl \<longrightarrow> formal ?f n = Some fl"
      by (auto simp: unsetFlags_def split: if_splits)
    moreover have "args ?f = ?as @ (if args ?s1 = [] then [] else ''--'' # args ?s1)" by simp
    ultimately have sp:
      "(\<forall>n. n \<notin> set order \<or> envFlag U ops environ (o_prefix cfg) ?unset n = None \<longrightarrow> formal (snd ?r) n = formal ?f n)
       \<and> (\<forall>n\<in>set order. \<forall>fl t. envFlag U ops environ (o_prefix cfg) ?unset n = Some (fl, t) \<longrightarrow>
             formal (snd ?r) n = Some fl \<or> formal (snd ?r) n = Some (setFlag ops fl t))
       \<and> (fst ?r = None \<longrightarrow> args (snd ?r) = args ?s1 \<and>
             (\<forall>n\<in>set order. \<forall>fl t. envFlag U ops environ (o_prefix cfg) ?unset n = Some (fl, t) \<longrightarrow>
                setError ops fl t = None \<and> formal (snd ?r) n = Some (setFlag ops fl t) \<and> n \<in> actual (snd ?r)))"
      using secondPass [of order ?f ?unset U ops environ "o_prefix cfg" "args ?s1" "fst ?r" "snd ?r"] r
      by blast
    show ?thesis
      using sp inord by auto
  qed
qed

text \<open>
  \<open>Parse\<close> with its options applied is \<open>parseWith\<close> on the resulting \<open>option\<close> struct.
\<close>

lemma Parse_defaults:
  "Parse U ops environ order CommandLine osArgs [] =
     parseWith U ops environ order \<lparr>o_set = CommandLine, o_args = drop 1 osArgs, o_prefix = []\<rparr>"
  by (simp add: Parse_def)

lemma Parse_options:
  "Parse U ops environ order CommandLine osArgs [FlagSet s, Args arguments, Prefix p] =
     parseWith U ops environ order \<lparr>o_set = s, o_args = arguments, o_prefix = p\<rparr>"
  by (simp add: Parse_def FlagSet_def Args_def Prefix_def)

lemma dom_unsetFlags: "dom (unsetFlags s) = dom (formal s) - actual s"
  by (auto simp: unsetFlags_def split: if_splits)


lemma envArgs_same_keys:
  assumes "\<forall>n\<in>set order. unset n \<noteq> None \<longrightarrow> environ (envKey U p n) = environ' (envKey U p n)"
  shows "envArgs U ops environ p unset order = envArgs U ops environ' p unset order"
  using assms by (induction order) (auto simp: envArgs_Cons envText_def split: option.splits)

lemma envKey_ascii:
  "isASCII (p @ name) \<Longrightarrow> envKey U p name = envKey noTables p name"
  by (simp add: envKey_def ToUpper_def)

lemma NewFlagSet_wellFormed: "wellFormed NewFlagSet"
  by (simp add: wellFormed_def NewFlagSet_def)

lemma Var_wellFormed:
  "wellFormed f \<Longrightarrow> Var ops f v name usage = Some f' \<Longrightarrow> wellFormed f'"
  by (auto simp: wellFormed_def Var_def split: if_splits option.splits)

section \<open>The claims\<close>








text \<open>
  C4. The key that \<open>env\<close> looks up for a flag is the prefix followed by the flag name,
  upper-cased, with every \<open>.\<close> and every \<open>-\<close> replaced by \<open>_\<close>; and \<open>Parse\<close> reads the
  environment at the keys of the unset flags only: two environments that agree on
  those keys give the same result.
\<close>

theorem only_the_mapped_key:
  assumes "\<forall>n\<in>dom (unsetFlags (snd (firstPass ops cfg))).
             environ (envKey U (o_prefix cfg) n) = environ' (envKey U (o_prefix cfg) n)"
  shows "parseWith U ops environ order cfg = parseWith U ops environ' order cfg
       \<and> (\<forall>name. env U environ (o_prefix cfg @ name) = environ (envKey U (o_prefix cfg) name))"
proof
  show "parseWith U ops environ order cfg = parseWith U ops environ' order cfg"
  proof (cases "fst (firstPass ops cfg)")
    case None
    have "envArgs U ops environ (o_prefix cfg) (unsetFlags (snd (firstPass ops cfg))) order
        = envArgs U ops environ' (o_prefix cfg) (unsetFlags (snd (firstPass ops cfg))) order"
      using assms by (intro envArgs_same_keys) auto
    then show ?thesis
      using parseWith_second [OF None, of U environ order] parseWith_second [OF None, of U environ' order]
      by simp
  next
    case (Some e)
    then show ?thesis by (simp add: parseWith_first_error)
  qed
next
  show "\<forall>name. env U environ (o_prefix cfg @ name) = environ (envKey U (o_prefix cfg) name)"
    by (simp add: env_envKey)
qed

theorem only_the_mapped_key_witness:
  "envKey noTables ''PREFIX_'' ''envflag_prefix'' = ''PREFIX_ENVFLAG_PREFIX''
   \<and> parseWith noTables stdOps [''PREFIX_ENVFLAG_PREFIX'' \<mapsto> ''42''] [''envflag_prefix'']
        \<lparr>o_set = oneFlag ''envflag_prefix'' (IntValue 0), o_args = [], o_prefix = ''PREFIX_''\<rparr>
     = parseWith noTables stdOps
        [''PREFIX_ENVFLAG_PREFIX'' \<mapsto> ''42'', ''ENVFLAG_PREFIX'' \<mapsto> ''7'',
         ''PREFIX_envflag_prefix'' \<mapsto> ''8'', ''envflag_prefix'' \<mapsto> ''9'']
        [''envflag_prefix'']
        \<lparr>o_set = oneFlag ''envflag_prefix'' (IntValue 0), o_args = [], o_prefix = ''PREFIX_''\<rparr>
   \<and> map_option Value
        (formal (snd (parseWith noTables stdOps [''PREFIX_ENVFLAG_PREFIX'' \<mapsto> ''42''] [''envflag_prefix'']
           \<lparr>o_set = oneFlag ''envflag_prefix'' (IntValue 0), o_args = [], o_prefix = ''PREFIX_''\<rparr>))
         ''envflag_prefix'') = Some (IntValue 42)"
proof -
  let ?cfg = "\<lparr>o_set = oneFlag ''envflag_prefix'' (IntValue 0), o_args = [], o_prefix = ''PREFIX_''\<rparr>"
  let ?e1 = "[''PREFIX_ENVFLAG_PREFIX'' \<mapsto> ''42'']"
  let ?e2 = "[''PREFIX_ENVFLAG_PREFIX'' \<mapsto> ''42'', ''ENVFLAG_PREFIX'' \<mapsto> ''7'',
         ''PREFIX_envflag_prefix'' \<mapsto> ''8'', ''envflag_prefix'' \<mapsto> ''9'']"
  have key: "envKey noTables ''PREFIX_'' ''envflag_prefix'' = ''PREFIX_ENVFLAG_PREFIX''"
    by code_simp
  have act: "actual (snd (firstPass stdOps ?cfg)) = {}"
    by code_simp
  have d: "dom (unsetFlags (snd (firstPass stdOps ?cfg))) = {''envflag_prefix''}"
    by (simp add: dom_unsetFlags firstPass_frame act) (simp add: oneFlag_def)
  have h: "\<forall>n\<in>dom (unsetFlags (snd (firstPass stdOps ?cfg))).
             ?e1 (envKey noTables (o_prefix ?cfg) n) = ?e2 (envKey noTables (o_prefix ?cfg) n)"
    using key by (simp add: d)
  have v: "map_option Value (formal (snd (parseWith noTables stdOps ?e1 [''envflag_prefix''] ?cfg))
         ''envflag_prefix'') = Some (IntValue 42)"
    by code_simp
  have eq: "parseWith noTables stdOps ?e1 [''envflag_prefix''] ?cfg
      = parseWith noTables stdOps ?e2 [''envflag_prefix''] ?cfg"
    using only_the_mapped_key [OF h, of "[''envflag_prefix'']"] by (rule conjunct1)
  show ?thesis
    using key eq v by (intro conjI)
qed




text \<open>
  C6. When the first pass over the argument list fails, \<open>Parse\<close> returns the error and
  the state of that pass as they are: the result is the same for every environment and
  every order of the flags, no argument list is built and no second pass runs.
\<close>

theorem first_pass_error_returned:
  assumes "fst (firstPass ops cfg) = Some err"
  shows "parseWith U ops environ order cfg = firstPass ops cfg"
  using assms by (rule parseWith_first_error)

theorem first_pass_error_returned_witness:
  "fst (firstPass stdOps
          \<lparr>o_set = oneFlag ''envflag_invalid_arg'' (IntValue (- 1)),
             o_args = [''--envflag_invalid_arg=invalid_int''], o_prefix = []\<rparr>)
     = Some (InvalidValue ''invalid_int'' ''envflag_invalid_arg'' ''parse error'')
   \<and> parseWith noTables stdOps [''ENVFLAG_INVALID_ARG'' \<mapsto> ''42''] [''envflag_invalid_arg'']
          \<lparr>o_set = oneFlag ''envflag_invalid_arg'' (IntValue (- 1)),
             o_args = [''--envflag_invalid_arg=invalid_int''], o_prefix = []\<rparr>
     = firstPass stdOps
          \<lparr>o_set = oneFlag ''envflag_invalid_arg'' (IntValue (- 1)),
             o_args = [''--envflag_invalid_arg=invalid_int''], o_prefix = []\<rparr>"
proof -
  have h: "fst (firstPass stdOps
          \<lparr>o_set = oneFlag ''envflag_invalid_arg'' (IntValue (- 1)),
             o_args = [''--envflag_invalid_arg=invalid_int''], o_prefix = []\<rparr>)
     = Some (InvalidValue ''invalid_int'' ''envflag_invalid_arg'' ''parse error'')"
    by code_simp
  show ?thesis
    using h first_pass_error_returned [OF h] by simp
qed





text \<open>
  C9. An environment variable set to the empty string is present: for an unset flag
  with such a variable the argument \<open>--name=\<close> is built, and when the flag's \<open>Set\<close> rejects
  the empty string (the standard int and boolean values do) \<open>Parse\<close> returns an error.
\<close>

theorem empty_value_is_present:
  assumes wf: "wellFormed (o_set cfg)"
      and ok: "fst (firstPass ops cfg) = None"
      and ord: "rangeOrder order (unsetFlags (snd (firstPass ops cfg)))"
      and reg: "formal (snd (firstPass ops cfg)) name = Some fl"
      and not_set: "name \<notin> actual (snd (firstPass ops cfg))"
      and empty: "environ (envKey U (o_prefix cfg) name) = Some []"
      and rejects: "setError ops fl [] \<noteq> None"
  shows "''--'' @ name @ ''=''
           \<in> set (envArgs U ops environ (o_prefix cfg) (unsetFlags (snd (firstPass ops cfg))) order)
       \<and> fst (parseWith U ops environ order cfg) \<noteq> None"
proof -
  have n: "normalized U (isBoolFlag ops (Value fl)) [] = []"
    by (simp add: normalized_def ToLower_def isASCII_def)
  have ef: "envFlag U ops environ (o_prefix cfg) (unsetFlags (snd (firstPass ops cfg))) name = Some (fl, [])"
    using reg not_set empty n by (simp add: envFlag_unsetFlags)
  have "name \<in> set order"
    using ord reg not_set by (auto simp: rangeOrder_def dom_unsetFlags)
  then have "''--'' @ name @ ''='' @ []
           \<in> set (envArgs U ops environ (o_prefix cfg) (unsetFlags (snd (firstPass ops cfg))) order)"
    using ef unfolding envArgs_set by blast
  moreover have "fst (parseWith U ops environ order cfg) \<noteq> None"
    using parseWith_post [OF wf ok ord, of U environ name] ef rejects by auto
  ultimately show ?thesis by simp
qed

theorem empty_value_is_present_witness:
  "setError stdOps (stdFlag ''n'' (IntValue 3)) [] = Some ''parse error''
   \<and> ''--n='' \<in> set (envArgs noTables stdOps [''N'' \<mapsto> ''''] []
                       (unsetFlags (snd (firstPass stdOps
                          \<lparr>o_set = oneFlag ''n'' (IntValue 3), o_args = [], o_prefix = []\<rparr>))) [''n''])
   \<and> fst (parseWith noTables stdOps [''N'' \<mapsto> ''''] [''n'']
            \<lparr>o_set = oneFlag ''n'' (IntValue 3), o_args = [], o_prefix = []\<rparr>) \<noteq> None
   \<and> setError stdOps (stdFlag ''b'' (BoolValue True)) [] = Some ''parse error''
   \<and> fst (parseWith noTables stdOps [''B'' \<mapsto> ''''] [''b'']
            \<lparr>o_set = oneFlag ''b'' (BoolValue True), o_args = [], o_prefix = []\<rparr>) \<noteq> None"
proof -
  let ?cfg = "\<lparr>o_set = oneFlag ''n'' (IntValue 3), o_args = [], o_prefix = []\<rparr>"
  let ?cfgb = "\<lparr>o_set = oneFlag ''b'' (BoolValue True), o_args = [], o_prefix = []\<rparr>"
  have wf: "wellFormed (o_set ?cfg)" "wellFormed (o_set ?cfgb)"
    by (simp_all add: wellFormed_def oneFlag_def validName_def)
  have ok: "fst (firstPass stdOps ?cfg) = None" "fst (firstPass stdOps ?cfgb) = None"
    by code_simp+
  have act: "actual (snd (firstPass stdOps ?cfg)) = {}" "actual (snd (firstPass stdOps ?cfgb)) = {}"
    by code_simp+
  have ord: "rangeOrder [''n''] (unsetFlags (snd (firstPass stdOps ?cfg)))"
     "rangeOrder [''b''] (unsetFlags (snd (firstPass stdOps ?cfgb)))"
    by (simp_all add: rangeOrder_def dom_unsetFlags firstPass_frame act) (simp_all add: oneFlag_def)
  have reg: "formal (snd (firstPass stdOps ?cfg)) ''n'' = Some (stdFlag ''n'' (IntValue 3))"
     "formal (snd (firstPass stdOps ?cfgb)) ''b'' = Some (stdFlag ''b'' (BoolValue True))"
    by code_simp+
  have ns: "''n'' \<notin> actual (snd (firstPass stdOps ?cfg))" "''b'' \<notin> actual (snd (firstPass stdOps ?cfgb))"
    using act by simp_all
  have e: "[''N'' \<mapsto> ([]::string)] (envKey noTables (o_prefix ?cfg) ''n'') = Some []"
     "[''B'' \<mapsto> ([]::string)] (envKey noTables (o_prefix ?cfgb) ''b'') = Some []"
    by code_simp+
  have rj: "setError stdOps (stdFlag ''n'' (IntValue 3)) [] = Some ''parse error''"
     "setError stdOps (stdFlag ''b'' (BoolValue True)) [] = Some ''parse error''"
    by code_simp+
  have rj': "setError stdOps (stdFlag ''n'' (IntValue 3)) [] \<noteq> None"
     "setError stdOps (stdFlag ''b'' (BoolValue True)) [] \<noteq> None"
    using rj by simp_all
  have n: "''--n='' \<in> set (envArgs noTables stdOps [''N'' \<mapsto> ''''] []
                       (unsetFlags (snd (firstPass stdOps ?cfg))) [''n''])
     \<and> fst (parseWith noTables stdOps [''N'' \<mapsto> ''''] [''n''] ?cfg) \<noteq> None"
    using empty_value_is_present [where U = noTables and environ = "[''N'' \<mapsto> []]", OF wf(1) ok(1) ord(1) reg(1) ns(1) e(1) rj'(1)] by simp
  have b: "fst (parseWith noTables stdOps [''B'' \<mapsto> ''''] [''b''] ?cfgb) \<noteq> None"
    using empty_value_is_present [where U = noTables and environ = "[''B'' \<mapsto> []]", OF wf(2) ok(2) ord(2) reg(2) ns(2) e(2) rj'(2)] by (rule conjunct2)
  show ?thesis
    using rj n b by (intro conjI) simp_all
qed

text \<open>
  C10. The map from flag names to environment keys is not injective: \<open>a.b\<close> and \<open>a-b\<close>
  have the same key, and so have \<open>ab\<close> and \<open>AB\<close>; with the unset flags \<open>a.b\<close> and \<open>a-b\<close> the
  one variable \<open>A_B\<close> gives both flags their value in one call of \<open>Parse\<close>.
\<close>

theorem environment_key_not_injective:
  "''a.b'' \<noteq> ''a-b'' \<and> envKey U [] ''a.b'' = envKey U [] ''a-b''
   \<and> ''ab'' \<noteq> ''AB'' \<and> envKey U [] ''ab'' = envKey U [] ''AB''
   \<and> fst (parseWith noTables stdOps [''A_B'' \<mapsto> ''x''] [''a.b'', ''a-b'']
            \<lparr>o_set = twoFlags ''a.b'' (StringValue ''p'') ''a-b'' (StringValue ''q''),
               o_args = [], o_prefix = []\<rparr>) = None
   \<and> map_option Value
        (formal (snd (parseWith noTables stdOps [''A_B'' \<mapsto> ''x''] [''a.b'', ''a-b'']
            \<lparr>o_set = twoFlags ''a.b'' (StringValue ''p'') ''a-b'' (StringValue ''q''),
               o_args = [], o_prefix = []\<rparr>)) ''a.b'') = Some (StringValue ''x'')
   \<and> map_option Value
        (formal (snd (parseWith noTables stdOps [''A_B'' \<mapsto> ''x''] [''a.b'', ''a-b'']
            \<lparr>o_set = twoFlags ''a.b'' (StringValue ''p'') ''a-b'' (StringValue ''q''),
               o_args = [], o_prefix = []\<rparr>)) ''a-b'') = Some (StringValue ''x'')"
proof -
  have asc: "isASCII ([] @ ''a.b'')" "isASCII ([] @ ''a-b'')" "isASCII ([] @ ''ab'')" "isASCII ([] @ ''AB'')"
    by code_simp+
  have "envKey noTables [] ''a.b'' = envKey noTables [] ''a-b''"
    by code_simp
  then have k1: "envKey U [] ''a.b'' = envKey U [] ''a-b''"
    using envKey_ascii [OF asc(1), of U] envKey_ascii [OF asc(2), of U] by simp
  have "envKey noTables [] ''ab'' = envKey noTables [] ''AB''"
    by code_simp
  then have k2: "envKey U [] ''ab'' = envKey U [] ''AB''"
    using envKey_ascii [OF asc(3), of U] envKey_ascii [OF asc(4), of U] by simp
  have r: "fst (parseWith noTables stdOps [''A_B'' \<mapsto> ''x''] [''a.b'', ''a-b'']
            \<lparr>o_set = twoFlags ''a.b'' (StringValue ''p'') ''a-b'' (StringValue ''q''),
               o_args = [], o_prefix = []\<rparr>) = None"
    by code_simp
  have a: "map_option Value
        (formal (snd (parseWith noTables stdOps [''A_B'' \<mapsto> ''x''] [''a.b'', ''a-b'']
            \<lparr>o_set = twoFlags ''a.b'' (StringValue ''p'') ''a-b'' (StringValue ''q''),
               o_args = [], o_prefix = []\<rparr>)) ''a.b'') = Some (StringValue ''x'')"
    by code_simp
  have b: "map_option Value
        (formal (snd (parseWith noTables stdOps [''A_B'' \<mapsto> ''x''] [''a.b'', ''a-b'']
            \<lparr>o_set = twoFlags ''a.b'' (StringValue ''p'') ''a-b'' (StringValue ''q''),
               o_args = [], o_prefix = []\<rparr>)) ''a-b'') = Some (StringValue ''x'')"
    by code_simp
  show ?thesis
    using k1 k2 r a b by simp
qed

end
